theory Spec2Isabelle
  imports Complex_Main
begin

section \<open>Content paths and change tracking (src/lib/content.js)\<close>

text \<open>
  The module turns the content entries of a configuration into \<open>ContentPath\<close>
  records and reports which matched files changed since the previous scan.
  Everything the module imports is a field of one of the two records \<open>node_lib\<close>
  and \<open>filesystem\<close> below: the calls into Node and into packages (\<open>fs\<close>,
  \<open>path\<close>, \<open>is-glob\<close>, \<open>fast-glob\<close>, \<open>normalize-path\<close>) and the two helpers
  \<open>parseGlob\<close> (from \<open>util/parseGlob\<close>) and \<open>flagEnabled\<close> (from
  \<open>featureFlags.js\<close>). Every function of the module is thus a function of these
  records and computes once they are given.
\<close>

subsection \<open>Data\<close>

text \<open>An exception thrown by a file-system call; the string is its code (ENOENT, ...).\<close>

datatype js_error = SystemError string

text \<open>The typedef \<open>ContentPath\<close> of the module; \<open>glob\<close> is \<open>string | null\<close>.\<close>

record ContentPath =
  original :: string
  base :: string
  glob :: "string option"

text \<open>
  An entry of \<open>tailwindConfig.content.files\<close>: a path or glob string (\<open>FilePath\<close>), or
  an object \<open>{raw: string, extension?: string}\<close> (\<open>RawFile\<close>); an absent
  \<open>extension\<close> is \<open>None\<close>.
\<close>

datatype content_item = FilePath string | RawFile string "string option"

record tailwind_config =
  content_files :: "content_item list"

text \<open>The \<open>context\<close> argument: \<open>userConfigPath\<close> is a string or null.\<close>

record build_ctx =
  userConfigPath :: "string option"
  tailwindConfig :: tailwind_config

text \<open>An element of the list \<open>resolvedChangedContent\<close> returns.\<close>

record changed_content =
  content :: string
  extension :: string

text \<open>
  The pure helpers the module calls. \<open>path_resolve\<close> takes the argument list of
  \<open>path.resolve(...)\<close>; Node resolves it against the current working directory, which
  is therefore part of this function. \<open>parseGlob\<close> returns the pair \<open>{base, glob}\<close> of
  two strings.
\<close>

record node_lib =
  normalizePath :: "string \<Rightarrow> string"
  isGlob :: "string \<Rightarrow> bool"
  parseGlob :: "string \<Rightarrow> string \<times> string"
  flagEnabled :: "tailwind_config \<Rightarrow> string \<Rightarrow> bool"
  path_dirname :: "string \<Rightarrow> string"
  path_resolve :: "string list \<Rightarrow> string"
  path_extname :: "string \<Rightarrow> string"

text \<open>
  The state of the disk during one call. Each synchronous call either returns or throws.
  \<open>statSync_mtimeMs p\<close> is \<open>fs.statSync(p).mtimeMs\<close>, a finite number;
  \<open>fastGlob_sync ps\<close> is \<open>fastGlob.sync(ps, {absolute: true})\<close>, in the order the
  engine lists the files.
\<close>

record filesystem =
  realpathSync :: "string \<Rightarrow> js_error + string"
  statSync_mtimeMs :: "string \<Rightarrow> js_error + real"
  readFileSync :: "string \<Rightarrow> js_error + string"
  fastGlob_sync :: "string list \<Rightarrow> js_error + string list"

text \<open>
  The \<open>Map<string, number>\<close> of last seen modification times. A missing key reads as
  \<open>-Infinity\<close> in the module (line 156), which is \<open>None\<close> here.
\<close>

type_synonym file_modified_map = "string \<rightharpoonup> real"

subsection \<open>JavaScript primitives used by the module\<close>

text \<open>\<open>s.startsWith(p)\<close>.\<close>

definition startsWith :: "string \<Rightarrow> string \<Rightarrow> bool" where
  "startsWith s p = (take (length p) s = p)"

text \<open>\<open>Set.prototype.add\<close>: a set keeps insertion order and ignores a repeated element.\<close>

definition set_add :: "string list \<Rightarrow> string \<Rightarrow> string list" where
  "set_add s x = (if x \<in> set s then s else s @ [x])"

text \<open>\<open>modified > prevModified\<close>, with \<open>prevModified = -Infinity\<close> for a missing key.\<close>

fun newer :: "real \<Rightarrow> real option \<Rightarrow> bool" where
  "newer modified None = True"
| "newer modified (Some prevModified) = (modified > prevModified)"

subsection \<open>parseCandidateFiles and parseContentPath\<close>

text \<open>
  Lines 50 to 61 of \<open>parseContentPath\<close>: the value of \<open>paths\<close> before the two
  passes of lines 63 and 64.
\<close>

definition initialPaths :: "node_lib \<Rightarrow> string \<Rightarrow> ContentPath list" where
  "initialPaths L filePath0 =
     (let filePath = normalizePath L filePath0 in
      if isGlob L filePath
      then (case parseGlob L filePath of
              (b, g) \<Rightarrow> [\<lparr>original = filePath, base = b, glob = Some g\<rparr>])
      else [\<lparr>original = filePath, base = filePath, glob = None\<rparr>])"

text \<open>
  \<open>resolveRelativePaths\<close> (lines 77 to 93). \<open>resolveFrom\<close> stays the empty list
  unless \<open>userConfigPath\<close> is truthy (neither null nor the empty string) and the flag
  is enabled.
\<close>

definition resolveFrom :: "node_lib \<Rightarrow> build_ctx \<Rightarrow> string list" where
  "resolveFrom L ctx =
     (case userConfigPath ctx of
        None \<Rightarrow> []
      | Some p \<Rightarrow>
          if p \<noteq> [] \<and> flagEnabled L (tailwindConfig ctx) ''resolveContentRelativeToConfig''
          then [path_dirname L p]
          else [])"

definition resolveRelativePaths :: "node_lib \<Rightarrow> build_ctx \<Rightarrow> ContentPath list \<Rightarrow> ContentPath list" where
  "resolveRelativePaths L ctx contentPaths =
     map (\<lambda>contentPath. contentPath\<lparr>base := path_resolve L (resolveFrom L ctx @ [base contentPath])\<rparr>)
       contentPaths"

text \<open>
  \<open>resolvePathSymlinks\<close> (lines 104 to 115). The \<open>catch\<close> block is empty, so a throw
  of \<open>realpathSync\<close> leads to the final \<open>return [contentPath]\<close>.
\<close>

definition resolvePathSymlinks :: "filesystem \<Rightarrow> ContentPath \<Rightarrow> ContentPath list" where
  "resolvePathSymlinks fs contentPath =
     (case realpathSync fs (base contentPath) of
        Inr newPath \<Rightarrow>
          if newPath \<noteq> base contentPath
          then [contentPath, contentPath\<lparr>base := newPath\<rparr>]
          else [contentPath]
      | Inl _ \<Rightarrow> [contentPath])"

text \<open>The test \<open>typeof filePath === 'string'\<close> of line 46.\<close>

definition isString :: "content_item \<Rightarrow> bool" where
  "isString item = (case item of FilePath p \<Rightarrow> True | RawFile r e \<Rightarrow> False)"

fun parseContentPath :: "node_lib \<Rightarrow> filesystem \<Rightarrow> build_ctx \<Rightarrow> content_item \<Rightarrow> ContentPath list" where
  "parseContentPath L fs ctx (RawFile r e) = []"
| "parseContentPath L fs ctx (FilePath filePath) =
     concat (map (resolvePathSymlinks fs) (resolveRelativePaths L ctx (initialPaths L filePath)))"

definition parseCandidateFiles ::
  "node_lib \<Rightarrow> filesystem \<Rightarrow> build_ctx \<Rightarrow> tailwind_config \<Rightarrow> ContentPath list" where
  "parseCandidateFiles L fs ctx cfg = concat (map (parseContentPath L fs ctx) (content_files cfg))"

subsection \<open>resolveChangedFiles\<close>

text \<open>
  The pattern one candidate contributes (lines 144 to 150). The test
  \<open>contentPath.glob ? ... : ...\<close> is a truthiness test: null and the empty string
  both select the base alone.
\<close>

definition queryPattern :: "ContentPath \<Rightarrow> string" where
  "queryPattern contentPath =
     (if startsWith (original contentPath) ''!'' then original contentPath
      else (case glob contentPath of
              None \<Rightarrow> base contentPath
            | Some g \<Rightarrow> if g \<noteq> [] then base contentPath @ ''/'' @ g else base contentPath))"

text \<open>
  The loop of lines 155 to 163 over the files still to visit, with the set built so far
  and the current table. A throw of \<open>statSync\<close> leaves the loop with the table as it is
  at that moment.
\<close>

fun scanFiles ::
  "filesystem \<Rightarrow> string list \<Rightarrow> string list \<Rightarrow> file_modified_map
     \<Rightarrow> file_modified_map \<times> (js_error + string list)" where
  "scanFiles fs [] changedFiles m = (m, Inr changedFiles)"
| "scanFiles fs (file # files) changedFiles m =
     (let prevModified = m file in
      case statSync_mtimeMs fs file of
        Inl err \<Rightarrow> (m, Inl err)
      | Inr modified \<Rightarrow>
          if newer modified prevModified
          then scanFiles fs files (set_add changedFiles file) (m(file \<mapsto> modified))
          else scanFiles fs files changedFiles m)"

text \<open>
  \<open>resolveChangedFiles\<close> (lines 143 to 166) returns the table after the call next to
  the set it returns or the error it throws. The two \<open>env.DEBUG\<close> lines only print
  timings.
\<close>

definition resolveChangedFiles ::
  "filesystem \<Rightarrow> ContentPath list \<Rightarrow> file_modified_map
     \<Rightarrow> file_modified_map \<times> (js_error + string list)" where
  "resolveChangedFiles fs candidateFiles m =
     (case fastGlob_sync fs (map queryPattern candidateFiles) of
        Inl err \<Rightarrow> (m, Inl err)
      | Inr files \<Rightarrow> scanFiles fs files [] m)"

subsection \<open>resolvedChangedContent\<close>

text \<open>
  Lines 124 to 126. The filter keeps the items whose \<open>raw\<close> is a string: a string
  item has no such property. The map destructures each kept item, \<open>extension\<close>
  defaulting to html when it is absent.
\<close>

definition hasRaw :: "content_item \<Rightarrow> bool" where
  "hasRaw item = (case item of RawFile r e \<Rightarrow> True | FilePath p \<Rightarrow> False)"

definition rawContent :: "content_item list \<Rightarrow> changed_content list" where
  "rawContent items =
     [\<lparr>content = r, extension = (case e of None \<Rightarrow> ''html'' | Some x \<Rightarrow> x)\<rparr>.
        RawFile r e \<leftarrow> filter hasRaw items]"

text \<open>The loop of lines 128 to 132 over the changed files, pushing onto \<open>changedContent\<close>.\<close>

fun readChanged ::
  "node_lib \<Rightarrow> filesystem \<Rightarrow> string list \<Rightarrow> changed_content list \<Rightarrow> js_error + changed_content list" where
  "readChanged L fs [] changedContent = Inr changedContent"
| "readChanged L fs (changedFile # rest) changedContent =
     (case readFileSync fs changedFile of
        Inl err \<Rightarrow> Inl err
      | Inr c \<Rightarrow>
          readChanged L fs rest
            (changedContent @ [\<lparr>content = c, extension = drop 1 (path_extname L changedFile)\<rparr>]))"

definition resolvedChangedContent ::
  "node_lib \<Rightarrow> filesystem \<Rightarrow> build_ctx \<Rightarrow> ContentPath list \<Rightarrow> file_modified_map
     \<Rightarrow> file_modified_map \<times> (js_error + changed_content list)" where
  "resolvedChangedContent L fs ctx candidateFiles m =
     (let changedContent = rawContent (content_files (tailwindConfig ctx)) in
      case resolveChangedFiles fs candidateFiles m of
        (m', Inl err) \<Rightarrow> (m', Inl err)
      | (m', Inr changedFiles) \<Rightarrow> (m', readChanged L fs changedFiles changedContent))"

subsection \<open>A sample environment\<close>

text \<open>
  One concrete disk and one concrete set of helpers, on which the functions above are
  evaluated. The disk has a directory \<open>/target\<close> with two style sheets, a symbolic
  link \<open>/link\<close> to it, and nothing else; \<open>b.css\<close> can be listed and inspected
  but not read. The glob engine knows the two star patterns and the literal paths,
  and lists the matches of each pattern in turn. The helpers are simple stand-ins with
  the shape of the real ones for the paths used here: the working directory is
  \<open>/work\<close>, a glob is a string with a star or a leading exclamation mark, the glob
  base is the directory part in front of the first star, and the glob base of a
  pattern with a leading exclamation mark is the current directory, with the whole
  pattern as its glob.
\<close>

definition ex_follow :: "string \<Rightarrow> string" where
  "ex_follow p = (if take 6 p = ''/link/'' then ''/target/'' @ drop 6 p else p)"

definition ex_fs :: filesystem where
  "ex_fs =
     \<lparr>realpathSync = (\<lambda>p. if p = ''/link'' \<or> p = ''/target'' then Inr ''/target''
                          else Inl (SystemError ''ENOENT'')),
      statSync_mtimeMs = (\<lambda>p. if ex_follow p = ''/target/a.css'' then Inr 1000
                              else if ex_follow p = ''/target/b.css'' then Inr 2000
                              else Inl (SystemError ''ENOENT'')),
      readFileSync = (\<lambda>p. if ex_follow p = ''/target/a.css'' then Inr ''.a{}''
                          else if ex_follow p = ''/target/b.css'' then Inl (SystemError ''EACCES'')
                          else Inl (SystemError ''ENOENT'')),
      fastGlob_sync = (\<lambda>ps. Inr (concat (map (\<lambda>p.
                          if p = ''/target/*.css'' then [''/target/a.css'', ''/target/b.css'']
                          else if p = ''/link/*.css'' then [''/link/a.css'', ''/link/b.css'']
                          else if ex_follow p = ''/target/a.css'' \<or> ex_follow p = ''/target/b.css''
                          then [p]
                          else []) ps)))\<rparr>"

definition ex_dirname :: "string \<Rightarrow> string" where
  "ex_dirname p = rev (drop 1 (dropWhile (\<lambda>c. c \<noteq> CHR ''/'') (rev p)))"

definition ex_lib :: node_lib where
  "ex_lib =
     \<lparr>normalizePath = (\<lambda>p. p),
      isGlob = (\<lambda>p. CHR ''*'' \<in> set p \<or> take 1 p = ''!''),
      parseGlob = (\<lambda>p. if take 1 p = ''!'' then (''.'', p)
                       else let b = ex_dirname (takeWhile (\<lambda>c. c \<noteq> CHR ''*'') p)
                            in (b, drop (length b + 1) p)),
      flagEnabled = (\<lambda>cfg flag. flag = ''resolveContentRelativeToConfig''),
      path_dirname = ex_dirname,
      path_resolve = foldl (\<lambda>acc p. if take 1 p = ''/'' then p
                                     else if p = ''.'' then acc
                                     else acc @ ''/'' @ p) ''/work'',
      path_extname = (\<lambda>p. if CHR ''.'' \<in> set p
                          then CHR ''.'' # rev (takeWhile (\<lambda>c. c \<noteq> CHR ''.'') (rev p))
                          else [])\<rparr>"

definition ex_config :: tailwind_config where
  "ex_config = \<lparr>content_files = [RawFile ''<div class=a>'' None, FilePath ''/link/*.css'',
                                   RawFile ''# b'' (Some ''md'')]\<rparr>"

definition ex_ctx :: build_ctx where
  "ex_ctx = \<lparr>userConfigPath = Some ''/link/tailwind.config.js'', tailwindConfig = ex_config\<rparr>"

text \<open>The candidates \<open>parseCandidateFiles\<close> computes for the sample configuration.\<close>

definition ex_candidates :: "ContentPath list" where
  "ex_candidates =
     [\<lparr>original = ''/link/*.css'', base = ''/link'', glob = Some ''*.css''\<rparr>,
      \<lparr>original = ''/link/*.css'', base = ''/target'', glob = Some ''*.css''\<rparr>]"

text \<open>
  The files the glob engine lists for the sample candidates, a table in which one file
  is up to date and one is stale, the table after a scan that starts from it, and the
  table after a first scan that starts from the empty one.
\<close>

definition ex_files :: "string list" where
  "ex_files = [''/link/a.css'', ''/link/b.css'', ''/target/a.css'', ''/target/b.css'']"

definition ex_table :: file_modified_map where
  "ex_table = [''/target/a.css'' \<mapsto> 1000, ''/link/b.css'' \<mapsto> 1500]"

definition ex_table_after :: file_modified_map where
  "ex_table_after =
     ex_table(''/link/a.css'' \<mapsto> 1000, ''/link/b.css'' \<mapsto> 2000, ''/target/b.css'' \<mapsto> 2000)"

definition ex_table_first :: file_modified_map where
  "ex_table_first =
     [''/link/a.css'' \<mapsto> 1000, ''/link/b.css'' \<mapsto> 2000,
      ''/target/a.css'' \<mapsto> 1000, ''/target/b.css'' \<mapsto> 2000]"

text \<open>
  The exclusion candidate that lines 56 to 63 build from the entry \<open>!ignored/*.css\<close>
  in the sample context, whose configuration file lies in \<open>/link\<close>.
\<close>

definition ex_excluded :: ContentPath where
  "ex_excluded = \<lparr>original = ''!ignored/*.css'', base = ''/link'', glob = Some ''!ignored/*.css''\<rparr>"

text \<open>The sample context without a known configuration file.\<close>

definition ex_ctx_plain :: build_ctx where
  "ex_ctx_plain = \<lparr>userConfigPath = None, tailwindConfig = ex_config\<rparr>"

text \<open>
  A single literal candidate, and the list \<open>resolvedChangedContent\<close> returns for it
  on the first scan of the sample configuration.
\<close>

definition ex_single :: "ContentPath list" where
  "ex_single = [\<lparr>original = ''/target/a.css'', base = ''/target/a.css'', glob = None\<rparr>]"

definition ex_out :: "changed_content list" where
  "ex_out = [\<lparr>content = ''<div class=a>'', extension = ''html''\<rparr>,
             \<lparr>content = ''# b'', extension = ''md''\<rparr>,
             \<lparr>content = ''.a{}'', extension = ''css''\<rparr>]"

section \<open>Properties\<close>

subsection \<open>The scan loop\<close>

lemma set_add_set: "set (set_add s x) = insert x (set s)"
  by (auto simp: set_add_def)

lemma set_add_distinct: "distinct s \<Longrightarrow> distinct (set_add s x)"
  by (simp add: set_add_def)

lemma scanFiles_stats:
  "scanFiles fs files ch m = (m', Inr ch') \<Longrightarrow> f \<in> set files \<Longrightarrow> \<exists>t. statSync_mtimeMs fs f = Inr t"
  by (induction files arbitrary: ch m) (auto split: sum.splits if_splits)

lemma scanFiles_returns:
  "\<forall>f\<in>set files. \<exists>t. statSync_mtimeMs fs f = Inr t \<Longrightarrow> \<exists>m' ch'. scanFiles fs files ch m = (m', Inr ch')"
  by (induction files arbitrary: ch m) (auto split: sum.splits)

lemma scanFiles_table:
  "scanFiles fs files ch m = (m', Inr ch') \<Longrightarrow> statSync_mtimeMs fs f = Inr t \<Longrightarrow>
   m' f = (if f \<in> set files \<and> newer t (m f) then Some t else m f)"
proof (induction files arbitrary: ch m)
  case Nil
  then show ?case by simp
next
  case (Cons g gs)
  from Cons.prems(1) obtain tg where tg: "statSync_mtimeMs fs g = Inr tg"
    by (auto split: sum.splits)
  show ?case
  proof (cases "newer tg (m g)")
    case True
    with Cons.prems(1) tg
    have run: "scanFiles fs gs (set_add ch g) (m(g \<mapsto> tg)) = (m', Inr ch')"
      by simp
    have ih: "m' f = (if f \<in> set gs \<and> newer t ((m(g \<mapsto> tg)) f) then Some t else (m(g \<mapsto> tg)) f)"
      by (rule Cons.IH [OF run Cons.prems(2)])
    show ?thesis
    proof (cases "f = g")
      case True
      with tg Cons.prems(2) have "t = tg" by simp
      with ih \<open>f = g\<close> \<open>newer tg (m g)\<close> show ?thesis by simp
    next
      case False
      with ih show ?thesis by simp
    qed
  next
    case False
    with Cons.prems(1) tg
    have run: "scanFiles fs gs ch m = (m', Inr ch')"
      by simp
    have ih: "m' f = (if f \<in> set gs \<and> newer t (m f) then Some t else m f)"
      by (rule Cons.IH [OF run Cons.prems(2)])
    show ?thesis
    proof (cases "f = g")
      case True
      with tg Cons.prems(2) have "t = tg" by simp
      with ih \<open>f = g\<close> \<open>\<not> newer tg (m g)\<close> show ?thesis by simp
    next
      case False
      with ih show ?thesis by simp
    qed
  qed
qed

lemma scanFiles_table_other:
  "scanFiles fs files ch m = (m', Inr ch') \<Longrightarrow> f \<notin> set files \<Longrightarrow> m' f = m f"
  by (induction files arbitrary: ch m) (auto split: sum.splits if_splits)

lemma scanFiles_changed:
  "scanFiles fs files ch m = (m', Inr ch') \<Longrightarrow>
   set ch' = set ch \<union> {f \<in> set files. \<exists>t. statSync_mtimeMs fs f = Inr t \<and> newer t (m f)}"
proof (induction files arbitrary: ch m)
  case Nil
  then show ?case by simp
next
  case (Cons g gs)
  then show ?case
    by (fastforce simp: set_add_set split: sum.splits if_splits)
qed

lemma scanFiles_distinct:
  "scanFiles fs files ch m = (m', Inr ch') \<Longrightarrow> distinct ch \<Longrightarrow> distinct ch'"
  by (induction files arbitrary: ch m) (auto simp: set_add_distinct split: sum.splits if_splits)

lemma scanFiles_quiet:
  "\<forall>f\<in>set files. \<exists>t. statSync_mtimeMs fs f = Inr t \<and> \<not> newer t (m f) \<Longrightarrow>
   scanFiles fs files ch m = (m, Inr ch)"
  by (induction files arbitrary: ch) auto

lemma resolveChangedFiles_glob:
  "resolveChangedFiles fs candidateFiles m = (m', Inr changedFiles) \<Longrightarrow>
   \<exists>files. fastGlob_sync fs (map queryPattern candidateFiles) = Inr files \<and>
     scanFiles fs files [] m = (m', Inr changedFiles)"
  by (auto simp: resolveChangedFiles_def split: sum.splits)

lemma scanFiles_settled:
  assumes "scanFiles fs files ch m = (m', Inr ch')"
  shows "scanFiles fs files ch2 m' = (m', Inr ch2)"
proof (rule scanFiles_quiet, rule ballI)
  fix f assume f: "f \<in> set files"
  from scanFiles_stats [OF assms f] obtain t where t: "statSync_mtimeMs fs f = Inr t" ..
  from scanFiles_table [OF assms t] f
  have "m' f = (if newer t (m f) then Some t else m f)" by simp
  then have "\<not> newer t (m' f)" by (cases "newer t (m f)") simp_all
  with t show "\<exists>t. statSync_mtimeMs fs f = Inr t \<and> \<not> newer t (m' f)" by blast
qed

lemma resolveChangedFiles_again:
  assumes "resolveChangedFiles fs candidateFiles m = (m', Inr changedFiles)"
  shows "resolveChangedFiles fs candidateFiles m' = (m', Inr [])"
proof -
  from resolveChangedFiles_glob [OF assms] obtain files
    where g: "fastGlob_sync fs (map queryPattern candidateFiles) = Inr files"
      and s: "scanFiles fs files [] m = (m', Inr changedFiles)" by blast
  from scanFiles_settled [OF s] g show ?thesis
    by (simp add: resolveChangedFiles_def)
qed

subsection \<open>The sample environment, evaluated\<close>

lemma ex_glob: "fastGlob_sync ex_fs (map queryPattern ex_candidates) = Inr ex_files"
  by (simp add: ex_fs_def ex_candidates_def queryPattern_def startsWith_def ex_files_def)

lemma ex_run:
  "resolveChangedFiles ex_fs ex_candidates ex_table =
     (ex_table_after, Inr [''/link/a.css'', ''/link/b.css'', ''/target/b.css''])"
proof -
  have "scanFiles ex_fs ex_files [] ex_table =
     (ex_table_after, Inr [''/link/a.css'', ''/link/b.css'', ''/target/b.css''])"
    by (simp add: ex_files_def ex_fs_def ex_follow_def ex_table_def ex_table_after_def set_add_def)
  then show ?thesis
    by (simp add: resolveChangedFiles_def ex_glob)
qed

lemma ex_stats: "\<forall>f\<in>set ex_files. \<exists>t. statSync_mtimeMs ex_fs f = Inr t"
  by (simp add: ex_files_def ex_fs_def ex_follow_def)

subsection \<open>Change detection\<close>

text \<open>
  C1. Whenever \<open>resolveChangedFiles\<close> returns, every file \<open>f\<close> the glob expansion
  produced has a modification time \<open>t\<close> on disk, and \<open>f\<close> is in the returned set
  if and only if \<open>t\<close> is strictly greater than the watermark stored for \<open>f\<close> before
  the call (a missing entry counting as minus infinity). The table after the call
  holds \<open>t\<close> for exactly the files in the returned set and the old entry for
  every other file, listed or not. The returned set contains listed files only, each
  once.
\<close>

theorem resolveChangedFiles_watermark:
  assumes glob: "fastGlob_sync fs (map queryPattern candidateFiles) = Inr files"
    and run: "resolveChangedFiles fs candidateFiles m = (m', Inr changedFiles)"
  shows "(\<forall>f\<in>set files. \<exists>t. statSync_mtimeMs fs f = Inr t \<and>
            (f \<in> set changedFiles \<longleftrightarrow> newer t (m f)) \<and>
            m' f = (if f \<in> set changedFiles then Some t else m f)) \<and>
         set changedFiles \<subseteq> set files \<and> distinct changedFiles \<and>
         (\<forall>f. f \<notin> set files \<longrightarrow> m' f = m f)"
proof -
  from glob run have s: "scanFiles fs files [] m = (m', Inr changedFiles)"
    by (simp add: resolveChangedFiles_def)
  have ch: "set changedFiles = {f \<in> set files. \<exists>t. statSync_mtimeMs fs f = Inr t \<and> newer t (m f)}"
    using scanFiles_changed [OF s] by simp
  have each: "\<exists>t. statSync_mtimeMs fs f = Inr t \<and>
            (f \<in> set changedFiles \<longleftrightarrow> newer t (m f)) \<and>
            m' f = (if f \<in> set changedFiles then Some t else m f)" if f: "f \<in> set files" for f
  proof -
    from scanFiles_stats [OF s f] obtain t where t: "statSync_mtimeMs fs f = Inr t" ..
    from ch f t have iff: "f \<in> set changedFiles \<longleftrightarrow> newer t (m f)" by simp
    from scanFiles_table [OF s t] f iff
    have "m' f = (if f \<in> set changedFiles then Some t else m f)" by simp
    with t iff show ?thesis by blast
  qed
  have sub: "set changedFiles \<subseteq> set files" using ch by blast
  have dist: "distinct changedFiles" using scanFiles_distinct [OF s] by simp
  have other: "\<forall>f. f \<notin> set files \<longrightarrow> m' f = m f"
    using scanFiles_table_other [OF s] by blast
  from each sub dist other show ?thesis by blast
qed

theorem resolveChangedFiles_watermark_witness:
  "fastGlob_sync ex_fs (map queryPattern ex_candidates) = Inr ex_files \<and>
   resolveChangedFiles ex_fs ex_candidates ex_table =
     (ex_table_after, Inr [''/link/a.css'', ''/link/b.css'', ''/target/b.css'']) \<and>
   statSync_mtimeMs ex_fs ''/target/a.css'' = Inr 1000 \<and>
   ex_table ''/target/a.css'' = Some 1000 \<and>
   ''/target/a.css'' \<notin> set [''/link/a.css'', ''/link/b.css'', ''/target/b.css''] \<and>
   ex_table_after ''/target/a.css'' = Some 1000 \<and>
   statSync_mtimeMs ex_fs ''/link/b.css'' = Inr 2000 \<and>
   ex_table ''/link/b.css'' = Some 1500 \<and>
   ''/link/b.css'' \<in> set [''/link/a.css'', ''/link/b.css'', ''/target/b.css''] \<and>
   ex_table_after ''/link/b.css'' = Some 2000 \<and>
   ex_table_after ''/elsewhere'' = ex_table ''/elsewhere''"
proof -
  let ?changed = "[''/link/a.css'', ''/link/b.css'', ''/target/b.css'']"
  note w = resolveChangedFiles_watermark [OF ex_glob ex_run]
  have sa: "statSync_mtimeMs ex_fs ''/target/a.css'' = Inr 1000"
    and sb: "statSync_mtimeMs ex_fs ''/link/b.css'' = Inr 2000"
    by (simp_all add: ex_fs_def ex_follow_def)
  have ma: "ex_table ''/target/a.css'' = Some 1000" and mb: "ex_table ''/link/b.css'' = Some 1500"
    by (simp_all add: ex_table_def)
  have "''/target/a.css'' \<in> set ex_files" by (simp add: ex_files_def)
  with w obtain ta where "statSync_mtimeMs ex_fs ''/target/a.css'' = Inr ta"
    and "(''/target/a.css'' \<in> set ?changed) = newer ta (ex_table ''/target/a.css'')"
    and "ex_table_after ''/target/a.css'' =
          (if ''/target/a.css'' \<in> set ?changed then Some ta else ex_table ''/target/a.css'')"
    by blast
  with sa ma have a: "''/target/a.css'' \<notin> set ?changed" "ex_table_after ''/target/a.css'' = Some 1000"
    by simp_all
  have "''/link/b.css'' \<in> set ex_files" by (simp add: ex_files_def)
  with w obtain tb where "statSync_mtimeMs ex_fs ''/link/b.css'' = Inr tb"
    and "(''/link/b.css'' \<in> set ?changed) = newer tb (ex_table ''/link/b.css'')"
    and "ex_table_after ''/link/b.css'' =
          (if ''/link/b.css'' \<in> set ?changed then Some tb else ex_table ''/link/b.css'')"
    by blast
  with sb mb have b: "''/link/b.css'' \<in> set ?changed" "ex_table_after ''/link/b.css'' = Some 2000"
    by simp_all
  have "''/elsewhere'' \<notin> set ex_files" by (simp add: ex_files_def)
  with w have c: "ex_table_after ''/elsewhere'' = ex_table ''/elsewhere''" by blast
  from ex_glob ex_run sa sb ma mb a b c show ?thesis by blast
qed

text \<open>
  C2. When the glob expansion succeeds and every listed file can be inspected, a call
  with the empty table returns exactly the listed files, and a second call with the
  same candidates, the table the first call left and the same disk returns the empty
  set and leaves the table as it is.
\<close>

theorem resolveChangedFiles_twice:
  assumes glob: "fastGlob_sync fs (map queryPattern candidateFiles) = Inr files"
    and stats: "\<forall>f\<in>set files. \<exists>t. statSync_mtimeMs fs f = Inr t"
  shows "\<exists>m' changedFiles.
           resolveChangedFiles fs candidateFiles Map.empty = (m', Inr changedFiles) \<and>
           set changedFiles = set files \<and>
           resolveChangedFiles fs candidateFiles m' = (m', Inr [])"
proof -
  from scanFiles_returns [OF stats] obtain m' changedFiles
    where s: "scanFiles fs files [] Map.empty = (m', Inr changedFiles)" by blast
  with glob have run: "resolveChangedFiles fs candidateFiles Map.empty = (m', Inr changedFiles)"
    by (simp add: resolveChangedFiles_def)
  have "set changedFiles = {f \<in> set files. \<exists>t. statSync_mtimeMs fs f = Inr t \<and> newer t (Map.empty f)}"
    using scanFiles_changed [OF s] by simp
  with stats have all: "set changedFiles = set files" by auto
  from run all resolveChangedFiles_again [OF run] show ?thesis by blast
qed

theorem resolveChangedFiles_twice_witness:
  "fastGlob_sync ex_fs (map queryPattern ex_candidates) = Inr ex_files \<and>
   resolveChangedFiles ex_fs ex_candidates Map.empty = (ex_table_first, Inr ex_files) \<and>
   resolveChangedFiles ex_fs ex_candidates ex_table_first = (ex_table_first, Inr [])"
proof -
  from resolveChangedFiles_twice [OF ex_glob ex_stats] obtain m' changedFiles
    where 1: "resolveChangedFiles ex_fs ex_candidates Map.empty = (m', Inr changedFiles)"
      and 2: "resolveChangedFiles ex_fs ex_candidates m' = (m', Inr [])" by blast
  have "scanFiles ex_fs ex_files [] Map.empty = (ex_table_first, Inr ex_files)"
    by (simp add: ex_files_def ex_fs_def ex_follow_def ex_table_first_def set_add_def)
  then have 3: "resolveChangedFiles ex_fs ex_candidates Map.empty = (ex_table_first, Inr ex_files)"
    by (simp add: resolveChangedFiles_def ex_glob)
  from 1 3 have "m' = ex_table_first" by simp
  with 2 3 ex_glob show ?thesis by simp
qed

subsection \<open>Symbolic links\<close>

text \<open>
  C4. For a candidate whose \<open>original\<close> does not start with an exclamation mark,
  \<open>resolvePathSymlinks\<close> returns the candidate followed by a copy whose base is the
  real path when \<open>realpathSync\<close> returns a path other than the base; it returns the
  candidate alone when \<open>realpathSync\<close> returns the base itself, and also when
  \<open>realpathSync\<close> throws, whatever the error: the result is then a list, not an
  error.
\<close>

theorem resolvePathSymlinks_cases:
  assumes "\<not> startsWith (original contentPath) ''!''"
  shows "(\<forall>newPath. realpathSync fs (base contentPath) = Inr newPath \<and> newPath \<noteq> base contentPath \<longrightarrow>
            resolvePathSymlinks fs contentPath = [contentPath, contentPath\<lparr>base := newPath\<rparr>]) \<and>
         (realpathSync fs (base contentPath) = Inr (base contentPath) \<longrightarrow>
            resolvePathSymlinks fs contentPath = [contentPath]) \<and>
         (\<forall>err. realpathSync fs (base contentPath) = Inl err \<longrightarrow>
            resolvePathSymlinks fs contentPath = [contentPath])"
  by (simp add: resolvePathSymlinks_def)

theorem resolvePathSymlinks_cases_witness:
  "\<not> startsWith ''/link/*.css'' ''!'' \<and>
   realpathSync ex_fs ''/link'' = Inr ''/target'' \<and>
   resolvePathSymlinks ex_fs \<lparr>original = ''/link/*.css'', base = ''/link'', glob = Some ''*.css''\<rparr> =
     [\<lparr>original = ''/link/*.css'', base = ''/link'', glob = Some ''*.css''\<rparr>,
      \<lparr>original = ''/link/*.css'', base = ''/target'', glob = Some ''*.css''\<rparr>] \<and>
   realpathSync ex_fs ''/target'' = Inr ''/target'' \<and>
   resolvePathSymlinks ex_fs \<lparr>original = ''/link/*.css'', base = ''/target'', glob = Some ''*.css''\<rparr> =
     [\<lparr>original = ''/link/*.css'', base = ''/target'', glob = Some ''*.css''\<rparr>] \<and>
   realpathSync ex_fs ''/missing'' = Inl (SystemError ''ENOENT'') \<and>
   resolvePathSymlinks ex_fs \<lparr>original = ''/link/*.css'', base = ''/missing'', glob = Some ''*.css''\<rparr> =
     [\<lparr>original = ''/link/*.css'', base = ''/missing'', glob = Some ''*.css''\<rparr>]"
proof -
  have n: "\<not> startsWith ''/link/*.css'' ''!''" by (simp add: startsWith_def)
  have r1: "realpathSync ex_fs ''/link'' = Inr ''/target''"
    and r2: "realpathSync ex_fs ''/target'' = Inr ''/target''"
    and r3: "realpathSync ex_fs ''/missing'' = Inl (SystemError ''ENOENT'')"
    by (simp_all add: ex_fs_def)
  from resolvePathSymlinks_cases
         [of "\<lparr>original = ''/link/*.css'', base = ''/link'', glob = Some ''*.css''\<rparr>" ex_fs] n r1
  have c1: "resolvePathSymlinks ex_fs \<lparr>original = ''/link/*.css'', base = ''/link'', glob = Some ''*.css''\<rparr> =
     [\<lparr>original = ''/link/*.css'', base = ''/link'', glob = Some ''*.css''\<rparr>,
      \<lparr>original = ''/link/*.css'', base = ''/target'', glob = Some ''*.css''\<rparr>]"
    by simp
  from resolvePathSymlinks_cases
         [of "\<lparr>original = ''/link/*.css'', base = ''/target'', glob = Some ''*.css''\<rparr>" ex_fs] n r2
  have c2: "resolvePathSymlinks ex_fs \<lparr>original = ''/link/*.css'', base = ''/target'', glob = Some ''*.css''\<rparr> =
     [\<lparr>original = ''/link/*.css'', base = ''/target'', glob = Some ''*.css''\<rparr>]"
    by simp
  from resolvePathSymlinks_cases
         [of "\<lparr>original = ''/link/*.css'', base = ''/missing'', glob = Some ''*.css''\<rparr>" ex_fs] n r3
  have c3: "resolvePathSymlinks ex_fs \<lparr>original = ''/link/*.css'', base = ''/missing'', glob = Some ''*.css''\<rparr> =
     [\<lparr>original = ''/link/*.css'', base = ''/missing'', glob = Some ''*.css''\<rparr>]"
    by simp
  from n r1 r2 r3 c1 c2 c3 show ?thesis by blast
qed

text \<open>
  C3 says that a candidate whose \<open>original\<close> starts with an exclamation mark passes
  through \<open>resolvePathSymlinks\<close> unchanged, its base never being resolved. The
  function does not look at \<open>original\<close>: on the sample disk the exclusion
  candidate based at the link \<open>/link\<close> comes back followed by a copy based at
  \<open>/target\<close>, and so \<open>parseContentPath\<close> returns two candidates for the entry.
\<close>

theorem resolvePathSymlinks_exclusion_counterexample:
  "startsWith (original ex_excluded) ''!'' \<and>
   resolvePathSymlinks ex_fs ex_excluded = [ex_excluded, ex_excluded\<lparr>base := ''/target''\<rparr>] \<and>
   resolvePathSymlinks ex_fs ex_excluded \<noteq> [ex_excluded] \<and>
   resolveRelativePaths ex_lib ex_ctx (initialPaths ex_lib ''!ignored/*.css'') = [ex_excluded] \<and>
   parseContentPath ex_lib ex_fs ex_ctx (FilePath ''!ignored/*.css'') =
     [ex_excluded, ex_excluded\<lparr>base := ''/target''\<rparr>]"
  by (simp add: ex_excluded_def startsWith_def resolvePathSymlinks_def ex_fs_def
      initialPaths_def Let_def resolveRelativePaths_def resolveFrom_def ex_lib_def ex_ctx_def
      ex_dirname_def)

text \<open>
  C3, amended. The base of an exclusion candidate is resolved like any other. The
  candidate passes through alone exactly when \<open>realpathSync\<close> throws or returns the
  base itself; when it returns another path the candidate is followed by a copy with
  that base. Every candidate returned contributes the same pattern to the glob
  expansion of \<open>resolveChangedFiles\<close>, namely the \<open>original\<close>.
\<close>

theorem resolvePathSymlinks_exclusion:
  assumes "startsWith (original contentPath) ''!''"
  shows "(resolvePathSymlinks fs contentPath = [contentPath] \<longleftrightarrow>
            (\<forall>newPath. realpathSync fs (base contentPath) = Inr newPath \<longrightarrow> newPath = base contentPath)) \<and>
         (\<forall>newPath. realpathSync fs (base contentPath) = Inr newPath \<and> newPath \<noteq> base contentPath \<longrightarrow>
            resolvePathSymlinks fs contentPath = [contentPath, contentPath\<lparr>base := newPath\<rparr>]) \<and>
         (\<forall>c\<in>set (resolvePathSymlinks fs contentPath). queryPattern c = original contentPath)"
  using assms
  by (cases "realpathSync fs (base contentPath)") (auto simp: resolvePathSymlinks_def queryPattern_def)

theorem resolvePathSymlinks_exclusion_witness:
  "startsWith (original ex_excluded) ''!'' \<and>
   realpathSync ex_fs (base ex_excluded) = Inr ''/target'' \<and>
   ''/target'' \<noteq> base ex_excluded \<and>
   resolvePathSymlinks ex_fs ex_excluded = [ex_excluded, ex_excluded\<lparr>base := ''/target''\<rparr>] \<and>
   map queryPattern (resolvePathSymlinks ex_fs ex_excluded) = [''!ignored/*.css'', ''!ignored/*.css'']"
proof -
  have s: "startsWith (original ex_excluded) ''!''"
    by (simp add: ex_excluded_def startsWith_def)
  have r: "realpathSync ex_fs (base ex_excluded) = Inr ''/target''" and d: "''/target'' \<noteq> base ex_excluded"
    by (simp_all add: ex_excluded_def ex_fs_def)
  note w = resolvePathSymlinks_exclusion [OF s, of ex_fs]
  from w r d have two: "resolvePathSymlinks ex_fs ex_excluded = [ex_excluded, ex_excluded\<lparr>base := ''/target''\<rparr>]"
    by blast
  from w have "\<forall>c\<in>set (resolvePathSymlinks ex_fs ex_excluded). queryPattern c = original ex_excluded"
    by blast
  with two have "map queryPattern (resolvePathSymlinks ex_fs ex_excluded) = [''!ignored/*.css'', ''!ignored/*.css'']"
    by (simp add: ex_excluded_def)
  with s r d two show ?thesis by blast
qed

subsection \<open>Parsing and resolving\<close>

lemma resolvePathSymlinks_keeps:
  "c \<in> set (resolvePathSymlinks fs contentPath) \<Longrightarrow>
   original c = original contentPath \<and> glob c = glob contentPath"
  by (auto simp: resolvePathSymlinks_def split: sum.splits if_splits)

lemma resolveRelativePaths_keeps:
  "c \<in> set (resolveRelativePaths L ctx contentPaths) \<Longrightarrow>
   \<exists>c0\<in>set contentPaths. original c = original c0 \<and> glob c = glob c0"
  by (auto simp: resolveRelativePaths_def)

lemma parseContentPath_keeps:
  assumes "c \<in> set (parseContentPath L fs ctx (FilePath filePath))"
  shows "\<exists>c0\<in>set (initialPaths L filePath). original c = original c0 \<and> glob c = glob c0"
proof -
  from assms obtain c1 where c1: "c1 \<in> set (resolveRelativePaths L ctx (initialPaths L filePath))"
    and c: "c \<in> set (resolvePathSymlinks fs c1)" by auto
  from resolveRelativePaths_keeps [OF c1] obtain c0 where "c0 \<in> set (initialPaths L filePath)"
    and "original c1 = original c0 \<and> glob c1 = glob c0" by blast
  with resolvePathSymlinks_keeps [OF c] show ?thesis by auto
qed

lemma initialPaths_fields:
  "c0 \<in> set (initialPaths L filePath) \<Longrightarrow>
   original c0 = normalizePath L filePath \<and> (glob c0 = None \<longleftrightarrow> \<not> isGlob L (normalizePath L filePath))"
  by (auto simp: initialPaths_def Let_def split: if_splits prod.splits)

text \<open>
  C5. The parse step of \<open>parseContentPath\<close> (lines 50 to 61): when the normalized
  input is not a glob, \<open>paths\<close> holds exactly one candidate, whose \<open>original\<close> and
  \<open>base\<close> are the normalized input and whose \<open>glob\<close> is null. The \<open>glob\<close> of a
  candidate is null only then: for a glob input it is the string \<open>parseGlob\<close>
  returned. The two later passes keep \<open>original\<close> and \<open>glob\<close>, so the same holds
  of every candidate \<open>parseContentPath\<close> returns; what they do to \<open>base\<close> and to
  the number of candidates is the subject of C6, C4 and C3.
\<close>

theorem initialPaths_literal:
  "(\<not> isGlob L (normalizePath L filePath) \<longrightarrow>
      initialPaths L filePath =
        [\<lparr>original = normalizePath L filePath, base = normalizePath L filePath, glob = None\<rparr>]) \<and>
   (\<forall>c\<in>set (initialPaths L filePath).
      glob c = None \<longleftrightarrow> \<not> isGlob L (normalizePath L filePath)) \<and>
   (\<forall>c\<in>set (parseContentPath L fs ctx (FilePath filePath)).
      original c = normalizePath L filePath \<and>
      (glob c = None \<longleftrightarrow> \<not> isGlob L (normalizePath L filePath)))"
proof (intro conjI impI ballI)
  assume "\<not> isGlob L (normalizePath L filePath)"
  then show "initialPaths L filePath =
        [\<lparr>original = normalizePath L filePath, base = normalizePath L filePath, glob = None\<rparr>]"
    by (simp add: initialPaths_def Let_def)
next
  fix c assume "c \<in> set (initialPaths L filePath)"
  from initialPaths_fields [OF this]
  show "glob c = None \<longleftrightarrow> \<not> isGlob L (normalizePath L filePath)" by simp
next
  fix c assume "c \<in> set (parseContentPath L fs ctx (FilePath filePath))"
  from parseContentPath_keeps [OF this] obtain c0 where "c0 \<in> set (initialPaths L filePath)"
    and eq: "original c = original c0 \<and> glob c = glob c0" by blast
  with initialPaths_fields [of c0 L filePath]
  show "original c = normalizePath L filePath" 
    and "glob c = None \<longleftrightarrow> \<not> isGlob L (normalizePath L filePath)" by simp_all
qed

theorem initialPaths_literal_witness:
  "\<not> isGlob ex_lib (normalizePath ex_lib ''/target/a.css'') \<and>
   initialPaths ex_lib ''/target/a.css'' =
     [\<lparr>original = ''/target/a.css'', base = ''/target/a.css'', glob = None\<rparr>] \<and>
   isGlob ex_lib (normalizePath ex_lib ''/link/*.css'') \<and>
   initialPaths ex_lib ''/link/*.css'' =
     [\<lparr>original = ''/link/*.css'', base = ''/link'', glob = Some ''*.css''\<rparr>] \<and>
   map glob (parseContentPath ex_lib ex_fs ex_ctx (FilePath ''/target/a.css'')) = [None] \<and>
   map glob (parseContentPath ex_lib ex_fs ex_ctx (FilePath ''/link/*.css'')) = [Some ''*.css'', Some ''*.css'']"
proof -
  have n: "\<not> isGlob ex_lib (normalizePath ex_lib ''/target/a.css'')"
    and g: "isGlob ex_lib (normalizePath ex_lib ''/link/*.css'')"
    by (simp_all add: ex_lib_def)
  have norm: "normalizePath ex_lib ''/target/a.css'' = ''/target/a.css''"
    by (simp add: ex_lib_def)
  note w = initialPaths_literal [of ex_lib "''/target/a.css''" ex_fs ex_ctx]
  from w n norm have lit: "initialPaths ex_lib ''/target/a.css'' =
     [\<lparr>original = ''/target/a.css'', base = ''/target/a.css'', glob = None\<rparr>]"
    by simp
  have pat: "initialPaths ex_lib ''/link/*.css'' =
     [\<lparr>original = ''/link/*.css'', base = ''/link'', glob = Some ''*.css''\<rparr>]"
    by (simp add: initialPaths_def Let_def ex_lib_def ex_dirname_def)
  have p1: "map glob (parseContentPath ex_lib ex_fs ex_ctx (FilePath ''/target/a.css'')) = [None]"
    by (simp add: initialPaths_def Let_def resolveRelativePaths_def resolveFrom_def resolvePathSymlinks_def
        ex_lib_def ex_fs_def ex_ctx_def ex_dirname_def)
  have p2: "map glob (parseContentPath ex_lib ex_fs ex_ctx (FilePath ''/link/*.css'')) =
      [Some ''*.css'', Some ''*.css'']"
    by (simp add: initialPaths_def Let_def resolveRelativePaths_def resolveFrom_def resolvePathSymlinks_def
        ex_lib_def ex_fs_def ex_ctx_def ex_dirname_def)
  from n g lit pat p1 p2 show ?thesis by blast
qed

text \<open>
  C6. \<open>resolveRelativePaths\<close> returns one candidate for each it is given, with the
  same \<open>original\<close> and \<open>glob\<close>. When \<open>userConfigPath\<close> is known (a non-empty
  string) and the flag \<open>resolveContentRelativeToConfig\<close> is enabled, the new base is
  \<open>path.resolve(path.dirname(userConfigPath), base)\<close>; in every other case it is
  \<open>path.resolve(base)\<close>, which Node resolves against the working directory. Either
  way the base is a value of \<open>path.resolve\<close>, whose results are absolute paths. The
  function takes no file system: it returns whether or not the base exists on disk.
\<close>

theorem resolveRelativePaths_root:
  "length (resolveRelativePaths L ctx contentPaths) = length contentPaths \<and>
   (\<forall>i<length contentPaths.
      original (resolveRelativePaths L ctx contentPaths ! i) = original (contentPaths ! i) \<and>
      glob (resolveRelativePaths L ctx contentPaths ! i) = glob (contentPaths ! i) \<and>
      (\<forall>p. userConfigPath ctx = Some p \<and> p \<noteq> [] \<and>
           flagEnabled L (tailwindConfig ctx) ''resolveContentRelativeToConfig'' \<longrightarrow>
           base (resolveRelativePaths L ctx contentPaths ! i) =
             path_resolve L [path_dirname L p, base (contentPaths ! i)]) \<and>
      (\<not> (\<exists>p. userConfigPath ctx = Some p \<and> p \<noteq> [] \<and>
              flagEnabled L (tailwindConfig ctx) ''resolveContentRelativeToConfig'') \<longrightarrow>
           base (resolveRelativePaths L ctx contentPaths ! i) =
             path_resolve L [base (contentPaths ! i)]))"
  by (cases "userConfigPath ctx") (auto simp: resolveRelativePaths_def resolveFrom_def)

theorem resolveRelativePaths_root_witness:
  "userConfigPath ex_ctx = Some ''/link/tailwind.config.js'' \<and>
   flagEnabled ex_lib (tailwindConfig ex_ctx) ''resolveContentRelativeToConfig'' \<and>
   path_resolve ex_lib [path_dirname ex_lib ''/link/tailwind.config.js'', ''src''] = ''/link/src'' \<and>
   resolveRelativePaths ex_lib ex_ctx [\<lparr>original = ''src/*.html'', base = ''src'', glob = Some ''*.html''\<rparr>] =
     [\<lparr>original = ''src/*.html'', base = ''/link/src'', glob = Some ''*.html''\<rparr>] \<and>
   userConfigPath ex_ctx_plain = None \<and>
   path_resolve ex_lib [''src''] = ''/work/src'' \<and>
   resolveRelativePaths ex_lib ex_ctx_plain [\<lparr>original = ''src/*.html'', base = ''src'', glob = Some ''*.html''\<rparr>] =
     [\<lparr>original = ''src/*.html'', base = ''/work/src'', glob = Some ''*.html''\<rparr>]"
proof -
  let ?c = "\<lparr>original = ''src/*.html'', base = ''src'', glob = Some ''*.html''\<rparr>"
  have u: "userConfigPath ex_ctx = Some ''/link/tailwind.config.js''"
    and f: "flagEnabled ex_lib (tailwindConfig ex_ctx) ''resolveContentRelativeToConfig''"
    and r: "path_resolve ex_lib [path_dirname ex_lib ''/link/tailwind.config.js'', ''src''] = ''/link/src''"
    and up: "userConfigPath ex_ctx_plain = None"
    and rp: "path_resolve ex_lib [''src''] = ''/work/src''"
    by (simp_all add: ex_ctx_def ex_ctx_plain_def ex_lib_def ex_dirname_def)
  note w = resolveRelativePaths_root [of ex_lib ex_ctx "[?c]"]
  from w have len: "length (resolveRelativePaths ex_lib ex_ctx [?c]) = 1" by simp
  from w u f r have "original (resolveRelativePaths ex_lib ex_ctx [?c] ! 0) = ''src/*.html'' \<and>
      glob (resolveRelativePaths ex_lib ex_ctx [?c] ! 0) = Some ''*.html'' \<and>
      base (resolveRelativePaths ex_lib ex_ctx [?c] ! 0) = ''/link/src''"
    by simp
  with len have a: "resolveRelativePaths ex_lib ex_ctx [?c] =
      [\<lparr>original = ''src/*.html'', base = ''/link/src'', glob = Some ''*.html''\<rparr>]"
    by (cases "resolveRelativePaths ex_lib ex_ctx [?c]") auto
  note wp = resolveRelativePaths_root [of ex_lib ex_ctx_plain "[?c]"]
  from wp have lenp: "length (resolveRelativePaths ex_lib ex_ctx_plain [?c]) = 1" by simp
  from wp up rp have "original (resolveRelativePaths ex_lib ex_ctx_plain [?c] ! 0) = ''src/*.html'' \<and>
      glob (resolveRelativePaths ex_lib ex_ctx_plain [?c] ! 0) = Some ''*.html'' \<and>
      base (resolveRelativePaths ex_lib ex_ctx_plain [?c] ! 0) = ''/work/src''"
    by simp
  with lenp have b: "resolveRelativePaths ex_lib ex_ctx_plain [?c] =
      [\<lparr>original = ''src/*.html'', base = ''/work/src'', glob = Some ''*.html''\<rparr>]"
    by (cases "resolveRelativePaths ex_lib ex_ctx_plain [?c]") auto
  from u f r up rp a b show ?thesis by blast
qed

subsection \<open>Entries that are not strings\<close>

lemma concat_map_filter_empty:
  "(\<And>x. \<not> P x \<Longrightarrow> f x = []) \<Longrightarrow> concat (map f (filter P xs)) = concat (map f xs)"
  by (induction xs) auto

lemma initialPaths_single: "\<exists>c0. initialPaths L p = [c0]"
  by (cases "parseGlob L (normalizePath L p)") (simp add: initialPaths_def Let_def)

text \<open>
  C10. \<open>parseContentPath\<close> returns the empty list for every entry that is not a
  string, so a candidate can only come from a string entry (and every string entry
  yields at least one), and \<open>parseCandidateFiles\<close> returns what it would return
  for the string entries alone.
\<close>

theorem parseCandidateFiles_strings_only:
  "(\<forall>r e. parseContentPath L fs ctx (RawFile r e) = []) \<and>
   (\<forall>item c. c \<in> set (parseContentPath L fs ctx item) \<longrightarrow> (\<exists>p. item = FilePath p)) \<and>
   (\<forall>p. parseContentPath L fs ctx (FilePath p) \<noteq> []) \<and>
   parseCandidateFiles L fs ctx cfg =
     concat (map (parseContentPath L fs ctx) (filter isString (content_files cfg)))"
proof (intro conjI allI impI)
  fix r e show "parseContentPath L fs ctx (RawFile r e) = []" by simp
next
  fix item c assume "c \<in> set (parseContentPath L fs ctx item)"
  then show "\<exists>p. item = FilePath p" by (cases item) simp_all
next
  fix p
  from initialPaths_single obtain c0 where "initialPaths L p = [c0]" ..
  then have "parseContentPath L fs ctx (FilePath p) =
      resolvePathSymlinks fs (c0\<lparr>base := path_resolve L (resolveFrom L ctx @ [base c0])\<rparr>)"
    by (simp add: resolveRelativePaths_def)
  then show "parseContentPath L fs ctx (FilePath p) \<noteq> []"
    by (simp add: resolvePathSymlinks_def split: sum.splits)
next
  have "\<And>x. \<not> isString x \<Longrightarrow> parseContentPath L fs ctx x = []"
    by (case_tac x) (simp_all add: isString_def)
  then show "parseCandidateFiles L fs ctx cfg =
     concat (map (parseContentPath L fs ctx) (filter isString (content_files cfg)))"
    by (simp add: parseCandidateFiles_def concat_map_filter_empty)
qed

theorem parseCandidateFiles_strings_only_witness:
  "parseContentPath ex_lib ex_fs ex_ctx (RawFile ''<div class=a>'' None) = [] \<and>
   filter isString (content_files ex_config) = [FilePath ''/link/*.css''] \<and>
   parseCandidateFiles ex_lib ex_fs ex_ctx ex_config =
     parseContentPath ex_lib ex_fs ex_ctx (FilePath ''/link/*.css'') \<and>
   parseCandidateFiles ex_lib ex_fs ex_ctx ex_config = ex_candidates"
proof -
  note w = parseCandidateFiles_strings_only [of ex_lib ex_fs ex_ctx ex_config]
  from w have a: "parseContentPath ex_lib ex_fs ex_ctx (RawFile ''<div class=a>'' None) = []"
    by blast
  have b: "filter isString (content_files ex_config) = [FilePath ''/link/*.css'']"
    by (simp add: ex_config_def isString_def)
  from w b have c: "parseCandidateFiles ex_lib ex_fs ex_ctx ex_config =
     parseContentPath ex_lib ex_fs ex_ctx (FilePath ''/link/*.css'')"
    by simp
  have "parseContentPath ex_lib ex_fs ex_ctx (FilePath ''/link/*.css'') = ex_candidates"
    by (simp add: initialPaths_def Let_def resolveRelativePaths_def resolveFrom_def
        resolvePathSymlinks_def ex_lib_def ex_fs_def ex_ctx_def ex_dirname_def ex_candidates_def)
  with a b c show ?thesis by simp
qed

subsection \<open>Reading the changed files\<close>

lemma readChanged_length:
  "readChanged L fs files acc = Inr out \<Longrightarrow> length out = length acc + length files"
  by (induction files arbitrary: acc) (auto split: sum.splits)

lemma readChanged_prefix:
  "readChanged L fs files acc = Inr out \<Longrightarrow> i < length acc \<Longrightarrow> out ! i = acc ! i"
  by (induction files arbitrary: acc) (auto simp: nth_append split: sum.splits)

lemma readChanged_entry:
  "readChanged L fs files acc = Inr out \<Longrightarrow> j < length files \<Longrightarrow>
   readFileSync fs (files ! j) = Inr (content (out ! (length acc + j))) \<and>
   extension (out ! (length acc + j)) = drop 1 (path_extname L (files ! j))"
proof (induction files arbitrary: acc j)
  case Nil
  then show ?case by simp
next
  case (Cons g gs)
  from Cons.prems(1) obtain c where c: "readFileSync fs g = Inr c"
    and run: "readChanged L fs gs (acc @ [\<lparr>content = c, extension = drop 1 (path_extname L g)\<rparr>]) = Inr out"
    by (auto split: sum.splits)
  show ?case
  proof (cases j)
    case 0
    from readChanged_prefix [OF run, of "length acc"]
    have "out ! length acc = \<lparr>content = c, extension = drop 1 (path_extname L g)\<rparr>" by simp
    with 0 c show ?thesis by simp
  next
    case (Suc k)
    with Cons.prems(2) have "k < length gs" by simp
    from Cons.IH [OF run this] Suc show ?thesis by simp
  qed
qed

lemma readChanged_returns:
  "\<forall>f\<in>set files. \<exists>c. readFileSync fs f = Inr c \<Longrightarrow> \<exists>out. readChanged L fs files acc = Inr out"
  by (induction files arbitrary: acc) auto

lemma readChanged_throws:
  "f \<in> set files \<Longrightarrow> readFileSync fs f = Inl err \<Longrightarrow>
   \<exists>i e. i < length files \<and> readFileSync fs (files ! i) = Inl e \<and>
     (\<forall>j<i. \<exists>c. readFileSync fs (files ! j) = Inr c) \<and>
     readChanged L fs files acc = Inl e"
proof (induction files arbitrary: acc)
  case Nil
  then show ?case by simp
next
  case (Cons g gs)
  show ?case
  proof (cases "readFileSync fs g")
    case (Inl e)
    then have "0 < length (g # gs) \<and> readFileSync fs ((g # gs) ! 0) = Inl e \<and>
        (\<forall>j<0. \<exists>c. readFileSync fs ((g # gs) ! j) = Inr c) \<and>
        readChanged L fs (g # gs) acc = Inl e" by simp
    then show ?thesis by blast
  next
    case (Inr c)
    with Cons.prems have "f \<in> set gs" by auto
    from Cons.IH [OF this Cons.prems(2), of "acc @ [\<lparr>content = c, extension = drop 1 (path_extname L g)\<rparr>]"]
    obtain i e where i: "i < length gs" and e: "readFileSync fs (gs ! i) = Inl e"
      and before: "\<forall>j<i. \<exists>c. readFileSync fs (gs ! j) = Inr c"
      and run: "readChanged L fs gs (acc @ [\<lparr>content = c, extension = drop 1 (path_extname L g)\<rparr>]) = Inl e"
      by blast
    have "\<forall>j<Suc i. \<exists>c. readFileSync fs ((g # gs) ! j) = Inr c"
    proof (intro allI impI)
      fix j assume "j < Suc i"
      with Inr before show "\<exists>c. readFileSync fs ((g # gs) ! j) = Inr c"
        by (cases j) auto
    qed
    with i e run Inr
    have "Suc i < length (g # gs) \<and> readFileSync fs ((g # gs) ! Suc i) = Inl e \<and>
        (\<forall>j<Suc i. \<exists>c. readFileSync fs ((g # gs) ! j) = Inr c) \<and>
        readChanged L fs (g # gs) acc = Inl e" by simp
    then show ?thesis by blast
  qed
qed

lemma rawContent_map:
  "rawContent items =
     map (\<lambda>item. case item of
            RawFile r e \<Rightarrow> \<lparr>content = r, extension = (case e of None \<Rightarrow> ''html'' | Some x \<Rightarrow> x)\<rparr>
          | FilePath p \<Rightarrow> \<lparr>content = [], extension = []\<rparr>)
       (filter hasRaw items)"
proof (induction items)
  case Nil
  show ?case by (simp add: rawContent_def)
next
  case (Cons a items)
  then show ?case by (cases a) (simp_all add: rawContent_def hasRaw_def)
qed

lemma rawContent_nth:
  assumes "i < length (filter hasRaw items)" and "filter hasRaw items ! i = RawFile r e"
  shows "rawContent items ! i = \<lparr>content = r, extension = (case e of None \<Rightarrow> ''html'' | Some x \<Rightarrow> x)\<rparr>"
  using assms by (simp add: rawContent_map)

lemma rawContent_length: "length (rawContent items) = length (filter hasRaw items)"
  by (simp add: rawContent_map)

lemma resolvedChangedContent_Inr:
  "resolvedChangedContent L fs ctx candidateFiles m = (m', Inr out) \<Longrightarrow>
   \<exists>changedFiles. resolveChangedFiles fs candidateFiles m = (m', Inr changedFiles) \<and>
     readChanged L fs changedFiles (rawContent (content_files (tailwindConfig ctx))) = Inr out"
  by (auto simp: resolvedChangedContent_def Let_def split: prod.splits sum.splits)

lemma ex_raw_items:
  "filter hasRaw (content_files (tailwindConfig ex_ctx)) =
     [RawFile ''<div class=a>'' None, RawFile ''# b'' (Some ''md'')]"
  by (simp add: ex_ctx_def ex_config_def hasRaw_def)

lemma ex_single_run:
  "resolveChangedFiles ex_fs ex_single Map.empty = ([''/target/a.css'' \<mapsto> 1000], Inr [''/target/a.css''])"
  by (simp add: resolveChangedFiles_def queryPattern_def startsWith_def ex_single_def ex_fs_def
      ex_follow_def set_add_def)

lemma ex_single_content:
  "resolvedChangedContent ex_lib ex_fs ex_ctx ex_single Map.empty =
     ([''/target/a.css'' \<mapsto> 1000], Inr ex_out)"
  by (simp add: resolvedChangedContent_def ex_single_run Let_def)
     (simp add: rawContent_def hasRaw_def ex_ctx_def ex_config_def ex_lib_def ex_fs_def ex_follow_def
      ex_out_def)

lemma ex_first_scan:
  "resolveChangedFiles ex_fs ex_candidates Map.empty = (ex_table_first, Inr ex_files)"
proof -
  have "scanFiles ex_fs ex_files [] Map.empty = (ex_table_first, Inr ex_files)"
    by (simp add: ex_files_def ex_fs_def ex_follow_def ex_table_first_def set_add_def)
  then show ?thesis
    by (simp add: resolveChangedFiles_def ex_glob)
qed

lemma ex_unreadable:
  "''/link/b.css'' \<in> set ex_files" "readFileSync ex_fs ''/link/b.css'' = Inl (SystemError ''EACCES'')"
  by (simp_all add: ex_files_def ex_fs_def ex_follow_def)

lemma ex_first_content:
  "resolvedChangedContent ex_lib ex_fs ex_ctx ex_candidates Map.empty =
     (ex_table_first, Inl (SystemError ''EACCES''))"
  by (simp add: resolvedChangedContent_def ex_first_scan Let_def)
     (simp add: ex_files_def ex_fs_def ex_follow_def)

text \<open>
  C7. Whenever \<open>resolvedChangedContent\<close> returns a list, the list starts with one
  element for each raw entry of the configuration, in the order of the configuration:
  the element at position \<open>i\<close> has the \<open>raw\<close> of the \<open>i\<close>-th raw entry as its
  content and that entry's extension, or html when the entry has none. The elements
  for the changed files follow, one per file in the order of the returned set, each
  with the text read from the file and the file's extension without the dot. The raw
  part depends on the configuration only, not on the table, the candidates or the disk.
\<close>

theorem resolvedChangedContent_raw_first:
  assumes "resolvedChangedContent L fs ctx candidateFiles m = (m', Inr out)"
  shows "\<exists>changedFiles.
           resolveChangedFiles fs candidateFiles m = (m', Inr changedFiles) \<and>
           length out = length (filter hasRaw (content_files (tailwindConfig ctx))) + length changedFiles \<and>
           (\<forall>i<length (filter hasRaw (content_files (tailwindConfig ctx))). \<forall>r e.
              filter hasRaw (content_files (tailwindConfig ctx)) ! i = RawFile r e \<longrightarrow>
              out ! i = \<lparr>content = r, extension = (case e of None \<Rightarrow> ''html'' | Some x \<Rightarrow> x)\<rparr>) \<and>
           (\<forall>j<length changedFiles.
              readFileSync fs (changedFiles ! j) =
                Inr (content (out ! (length (filter hasRaw (content_files (tailwindConfig ctx))) + j))) \<and>
              extension (out ! (length (filter hasRaw (content_files (tailwindConfig ctx))) + j)) =
                drop 1 (path_extname L (changedFiles ! j)))"
proof -
  let ?items = "content_files (tailwindConfig ctx)"
  from resolvedChangedContent_Inr [OF assms] obtain changedFiles
    where run: "resolveChangedFiles fs candidateFiles m = (m', Inr changedFiles)"
      and rd: "readChanged L fs changedFiles (rawContent ?items) = Inr out" by blast
  have len: "length out = length (filter hasRaw ?items) + length changedFiles"
    using readChanged_length [OF rd] by (simp add: rawContent_length)
  have raws: "out ! i = \<lparr>content = r, extension = (case e of None \<Rightarrow> ''html'' | Some x \<Rightarrow> x)\<rparr>"
    if "i < length (filter hasRaw ?items)" and "filter hasRaw ?items ! i = RawFile r e" for i r e
  proof -
    from that(1) have "i < length (rawContent ?items)" by (simp add: rawContent_length)
    from readChanged_prefix [OF rd this] rawContent_nth [OF that] show ?thesis by simp
  qed
  have files: "readFileSync fs (changedFiles ! j) =
                Inr (content (out ! (length (filter hasRaw ?items) + j))) \<and>
              extension (out ! (length (filter hasRaw ?items) + j)) =
                drop 1 (path_extname L (changedFiles ! j))"
    if "j < length changedFiles" for j
    using readChanged_entry [OF rd that] by (simp add: rawContent_length)
  from run len raws files show ?thesis by blast
qed

theorem resolvedChangedContent_raw_first_witness:
  "resolvedChangedContent ex_lib ex_fs ex_ctx ex_single Map.empty =
     ([''/target/a.css'' \<mapsto> 1000], Inr ex_out) \<and>
   filter hasRaw (content_files (tailwindConfig ex_ctx)) =
     [RawFile ''<div class=a>'' None, RawFile ''# b'' (Some ''md'')] \<and>
   length ex_out = 2 + length [''/target/a.css''] \<and>
   ex_out ! 0 = \<lparr>content = ''<div class=a>'', extension = ''html''\<rparr> \<and>
   ex_out ! 1 = \<lparr>content = ''# b'', extension = ''md''\<rparr> \<and>
   readFileSync ex_fs ''/target/a.css'' = Inr (content (ex_out ! 2)) \<and>
   extension (ex_out ! 2) = drop 1 (path_extname ex_lib ''/target/a.css'')"
proof -
  from resolvedChangedContent_raw_first [OF ex_single_content] obtain changedFiles
    where run: "resolveChangedFiles ex_fs ex_single Map.empty =
                  ([''/target/a.css'' \<mapsto> 1000], Inr changedFiles)"
      and len: "length ex_out =
                  length (filter hasRaw (content_files (tailwindConfig ex_ctx))) + length changedFiles"
      and raws: "\<forall>i<length (filter hasRaw (content_files (tailwindConfig ex_ctx))). \<forall>r e.
              filter hasRaw (content_files (tailwindConfig ex_ctx)) ! i = RawFile r e \<longrightarrow>
              ex_out ! i = \<lparr>content = r, extension = (case e of None \<Rightarrow> ''html'' | Some x \<Rightarrow> x)\<rparr>"
      and files: "\<forall>j<length changedFiles.
              readFileSync ex_fs (changedFiles ! j) =
                Inr (content (ex_out ! (length (filter hasRaw (content_files (tailwindConfig ex_ctx))) + j))) \<and>
              extension (ex_out ! (length (filter hasRaw (content_files (tailwindConfig ex_ctx))) + j)) =
                drop 1 (path_extname ex_lib (changedFiles ! j))"
    by blast
  from run ex_single_run have ch: "changedFiles = [''/target/a.css'']" by simp
  from len ch have l: "length ex_out = 2 + length [''/target/a.css'']"
    by (simp add: ex_raw_items)
  from raws have r0: "ex_out ! 0 = \<lparr>content = ''<div class=a>'', extension = ''html''\<rparr>"
    by (simp add: ex_raw_items)
  from raws have r1: "ex_out ! 1 = \<lparr>content = ''# b'', extension = ''md''\<rparr>"
    by (simp add: ex_raw_items)
  from files ch have f2: "readFileSync ex_fs ''/target/a.css'' = Inr (content (ex_out ! 2)) \<and>
      extension (ex_out ! 2) = drop 1 (path_extname ex_lib ''/target/a.css'')"
    by (simp add: ex_raw_items numeral_2_eq_2)
  from ex_single_content ex_raw_items l r0 r1 f2 show ?thesis by blast
qed

text \<open>
  C8. When \<open>resolveChangedFiles\<close> reports a file that \<open>readFileSync\<close> cannot read,
  \<open>resolvedChangedContent\<close> throws: its outcome is the error of the first changed
  file, in the order of the set, whose read throws. Nothing is returned in its place
  and no file is read again.
\<close>

theorem resolvedChangedContent_read_error:
  assumes run: "resolveChangedFiles fs candidateFiles m = (m', Inr changedFiles)"
    and f: "f \<in> set changedFiles"
    and unreadable: "readFileSync fs f = Inl err"
  shows "\<exists>i e. i < length changedFiles \<and> readFileSync fs (changedFiles ! i) = Inl e \<and>
           (\<forall>j<i. \<exists>c. readFileSync fs (changedFiles ! j) = Inr c) \<and>
           resolvedChangedContent L fs ctx candidateFiles m = (m', Inl e)"
proof -
  from readChanged_throws [OF f unreadable, of L "rawContent (content_files (tailwindConfig ctx))"]
  obtain i e where "i < length changedFiles" "readFileSync fs (changedFiles ! i) = Inl e"
    "\<forall>j<i. \<exists>c. readFileSync fs (changedFiles ! j) = Inr c"
    "readChanged L fs changedFiles (rawContent (content_files (tailwindConfig ctx))) = Inl e"
    by blast
  moreover from this(4) run have "resolvedChangedContent L fs ctx candidateFiles m = (m', Inl e)"
    by (simp add: resolvedChangedContent_def)
  ultimately show ?thesis by blast
qed

theorem resolvedChangedContent_read_error_witness:
  "resolveChangedFiles ex_fs ex_candidates Map.empty = (ex_table_first, Inr ex_files) \<and>
   ''/link/b.css'' \<in> set ex_files \<and>
   readFileSync ex_fs ''/link/b.css'' = Inl (SystemError ''EACCES'') \<and>
   resolvedChangedContent ex_lib ex_fs ex_ctx ex_candidates Map.empty =
     (ex_table_first, Inl (SystemError ''EACCES''))"
proof -
  from resolvedChangedContent_read_error [OF ex_first_scan ex_unreadable, of ex_lib ex_ctx]
  obtain i e where i: "i < length ex_files" and e: "readFileSync ex_fs (ex_files ! i) = Inl e"
    and res: "resolvedChangedContent ex_lib ex_fs ex_ctx ex_candidates Map.empty = (ex_table_first, Inl e)"
    by blast
  from i have "i = 0 \<or> i = 1 \<or> i = 2 \<or> i = 3" by (auto simp: ex_files_def)
  with e have "e = SystemError ''EACCES''"
    by (auto simp: ex_files_def ex_fs_def ex_follow_def)
  with res ex_first_scan ex_unreadable show ?thesis by simp
qed

text \<open>
  C9. The table is complete before the first file is read. When the read of a changed
  file throws, the table the call leaves behind already holds the new modification
  time of every file of the returned set, read or not; a second call with that table
  on the same disk finds no changed file and returns the raw entries only.
\<close>

theorem resolvedChangedContent_not_atomic:
  assumes run: "resolveChangedFiles fs candidateFiles m = (m', Inr changedFiles)"
    and f: "f \<in> set changedFiles"
    and unreadable: "readFileSync fs f = Inl err"
  shows "(\<exists>e. resolvedChangedContent L fs ctx candidateFiles m = (m', Inl e)) \<and>
         (\<forall>g\<in>set changedFiles. \<exists>t. statSync_mtimeMs fs g = Inr t \<and> newer t (m g) \<and> m' g = Some t) \<and>
         resolveChangedFiles fs candidateFiles m' = (m', Inr []) \<and>
         resolvedChangedContent L fs ctx candidateFiles m' =
           (m', Inr (rawContent (content_files (tailwindConfig ctx))))"
proof -
  from readChanged_throws [OF f unreadable, of L "rawContent (content_files (tailwindConfig ctx))"]
  obtain e where "readChanged L fs changedFiles (rawContent (content_files (tailwindConfig ctx))) = Inl e"
    by blast
  with run have first: "resolvedChangedContent L fs ctx candidateFiles m = (m', Inl e)"
    by (simp add: resolvedChangedContent_def)
  from resolveChangedFiles_glob [OF run] obtain files
    where s: "scanFiles fs files [] m = (m', Inr changedFiles)" by blast
  have ch: "set changedFiles = {g \<in> set files. \<exists>t. statSync_mtimeMs fs g = Inr t \<and> newer t (m g)}"
    using scanFiles_changed [OF s] by simp
  have advanced: "\<exists>t. statSync_mtimeMs fs g = Inr t \<and> newer t (m g) \<and> m' g = Some t"
    if g: "g \<in> set changedFiles" for g
  proof -
    from g ch obtain t where gf: "g \<in> set files" and t: "statSync_mtimeMs fs g = Inr t"
      and n: "newer t (m g)" by blast
    from scanFiles_table [OF s t] gf n have "m' g = Some t" by simp
    with t n show ?thesis by blast
  qed
  note again = resolveChangedFiles_again [OF run]
  then have retry: "resolvedChangedContent L fs ctx candidateFiles m' =
           (m', Inr (rawContent (content_files (tailwindConfig ctx))))"
    by (simp add: resolvedChangedContent_def)
  from first advanced again retry show ?thesis by blast
qed

theorem resolvedChangedContent_not_atomic_witness:
  "resolveChangedFiles ex_fs ex_candidates Map.empty = (ex_table_first, Inr ex_files) \<and>
   ''/link/b.css'' \<in> set ex_files \<and>
   readFileSync ex_fs ''/link/b.css'' = Inl (SystemError ''EACCES'') \<and>
   resolvedChangedContent ex_lib ex_fs ex_ctx ex_candidates Map.empty =
     (ex_table_first, Inl (SystemError ''EACCES'')) \<and>
   statSync_mtimeMs ex_fs ''/target/b.css'' = Inr 2000 \<and>
   ex_table_first ''/target/b.css'' = Some 2000 \<and>
   resolveChangedFiles ex_fs ex_candidates ex_table_first = (ex_table_first, Inr []) \<and>
   resolvedChangedContent ex_lib ex_fs ex_ctx ex_candidates ex_table_first =
     (ex_table_first, Inr [\<lparr>content = ''<div class=a>'', extension = ''html''\<rparr>,
                           \<lparr>content = ''# b'', extension = ''md''\<rparr>])"
proof -
  note w = resolvedChangedContent_not_atomic [OF ex_first_scan ex_unreadable, of ex_lib ex_ctx]
  have raw: "rawContent (content_files (tailwindConfig ex_ctx)) =
      [\<lparr>content = ''<div class=a>'', extension = ''html''\<rparr>, \<lparr>content = ''# b'', extension = ''md''\<rparr>]"
    by (simp add: rawContent_def hasRaw_def ex_ctx_def ex_config_def)
  have s: "statSync_mtimeMs ex_fs ''/target/b.css'' = Inr 2000"
    by (simp add: ex_fs_def ex_follow_def)
  have "''/target/b.css'' \<in> set ex_files" by (simp add: ex_files_def)
  with w obtain t where "statSync_mtimeMs ex_fs ''/target/b.css'' = Inr t"
    and "ex_table_first ''/target/b.css'' = Some t" by blast
  with s have t: "ex_table_first ''/target/b.css'' = Some 2000" by simp
  from w raw s t ex_first_scan ex_unreadable ex_first_content show ?thesis by simp
qed

end
